theory Spec2Isabelle
  imports Main
begin

section \<open>Strings and paths\<close>

text \<open>
  A Python \<open>str\<close> is a sequence of Unicode code points, so a string is a list of
  code points. ASCII text is written with \<open>u\<close>; the Chinese literals of the script
  are written by their code points.
\<close>

type_synonym ustring = "nat list"

definition u :: "string \<Rightarrow> ustring" where
  "u s = map of_char s"

text \<open>The characters for which \<open>str.isspace\<close> holds, which \<open>str.strip()\<close> removes.\<close>

definition isspace :: "nat \<Rightarrow> bool" where
  "isspace c \<longleftrightarrow>
     (9 \<le> c \<and> c \<le> 13) \<or> (28 \<le> c \<and> c \<le> 32) \<or> c = 133 \<or> c = 160 \<or> c = 5760 \<or>
     (8192 \<le> c \<and> c \<le> 8202) \<or> c = 8232 \<or> c = 8233 \<or> c = 8239 \<or> c = 8287 \<or> c = 12288"

definition strip :: "ustring \<Rightarrow> ustring" where
  "strip s = rev (dropWhile isspace (rev (dropWhile isspace s)))"

text \<open>\<open>s.startswith(k)\<close> and \<open>k in s\<close>.\<close>

fun startswith :: "ustring \<Rightarrow> ustring \<Rightarrow> bool" where
  "startswith s [] = True"
| "startswith [] (c # cs) = False"
| "startswith (x # xs) (c # cs) = (x = c \<and> startswith xs cs)"

fun contains :: "ustring \<Rightarrow> ustring \<Rightarrow> bool" where
  "contains [] k = (k = [])"
| "contains (x # xs) k = (startswith (x # xs) k \<or> contains xs k)"

text \<open>\<open>s.rfind(c)\<close>: the last index of the character, or -1.\<close>

fun rfind :: "ustring \<Rightarrow> nat \<Rightarrow> int" where
  "rfind [] c = - 1"
| "rfind (x # xs) c =
     (let r = rfind xs c in if 0 \<le> r then r + 1 else if x = c then 0 else - 1)"

text \<open>
  A path is the list of its components below the root. \<open>name\<close>, \<open>stem\<close> and
  \<open>suffix\<close> are those of \<open>pathlib\<close>: the suffix starts at the last dot of the name,
  unless that dot is the first or the last character.
\<close>

type_synonym path = "ustring list"

definition name :: "path \<Rightarrow> ustring" where
  "name p = (if p = [] then [] else last p)"

definition suffix :: "path \<Rightarrow> ustring" where
  "suffix p =
     (let n = name p; i = rfind n 46
      in if 0 < i \<and> i < int (length n) - 1 then drop (nat i) n else [])"

definition stem :: "path \<Rightarrow> ustring" where
  "stem p =
     (let n = name p; i = rfind n 46
      in if 0 < i \<and> i < int (length n) - 1 then take (nat i) n else n)"

text \<open>\<open>d / n\<close> for a single component \<open>n\<close>.\<close>

definition joinpath :: "path \<Rightarrow> ustring \<Rightarrow> path" where
  "joinpath d n = (if n = [] then d else d @ [n])"

section \<open>Clock\<close>

record datetime =
  year :: nat
  month :: nat
  day :: nat
  hour :: nat
  minute :: nat
  second :: nat

definition two_digits :: "nat \<Rightarrow> ustring" where
  "two_digits n = [48 + n div 10 mod 10, 48 + n mod 10]"

definition four_digits :: "nat \<Rightarrow> ustring" where
  "four_digits n = [48 + n div 1000 mod 10, 48 + n div 100 mod 10, 48 + n div 10 mod 10, 48 + n mod 10]"

text \<open>\<open>strftime("%Y.%m.%d")\<close> and \<open>strftime("%H%M%S")\<close>.\<close>

definition strftime_Ymd :: "datetime \<Rightarrow> ustring" where
  "strftime_Ymd t = four_digits (year t) @ [46] @ two_digits (month t) @ [46] @ two_digits (day t)"

definition strftime_HMS :: "datetime \<Rightarrow> ustring" where
  "strftime_HMS t = two_digits (hour t) @ two_digits (minute t) @ two_digits (second t)"

section \<open>Filesystem, environment and output\<close>

text \<open>
  A file is known by what \<open>python-docx\<close> reads from it: the texts of its paragraphs in
  document order, or \<open>None\<close> when \<open>Document(path)\<close> raises on it (a corrupt file). The
  filesystem is an association list in the order in which the directory scan yields
  its entries. The root is a directory that always exists.
\<close>

datatype node = Dir | File "ustring list option"

type_synonym filesystem = "(path \<times> node) list"

datatype error = OSError | PackageError

definition lookup :: "filesystem \<Rightarrow> path \<Rightarrow> node option" where
  "lookup fs p = (if p = [] then Some Dir else map_of fs p)"

definition path_exists :: "filesystem \<Rightarrow> path \<Rightarrow> bool" where
  "path_exists fs p \<longleftrightarrow> lookup fs p \<noteq> None"

fun fs_write :: "filesystem \<Rightarrow> path \<Rightarrow> node \<Rightarrow> filesystem" where
  "fs_write [] p n = [(p, n)]"
| "fs_write ((q, m) # rest) p n =
     (if q = p then (p, n) # rest else (q, m) # fs_write rest p n)"

text \<open>
  What the script does not decide itself is a parameter of the run: whether the import of
  \<open>python-docx\<close> succeeded, \<open>str.lower\<close>, the directory of the project, the successive
  readings of the clock, and the paths that the operating system refuses to read or to
  create.
\<close>

record env =
  DOCX_AVAILABLE :: bool
  lower :: "ustring \<Rightarrow> ustring"
  project_root :: path
  clock :: "nat \<Rightarrow> datetime"
  unreadable :: "path set"
  unwritable :: "path set"

datatype msg =
    Title | Separator | HintInstall | HintCommand | BlankLine
  | TargetDirectory path
  | SingleFile ustring
  | SourceMissing path
  | Found nat
  | FilenameMode
  | ReadFailed path error
  | Copied ustring
  | Skipped ustring
  | ProcessingError ustring error
  | Done nat path
  | InvalidPath path
  | Unexpected error

record world =
  disk :: filesystem
  out :: "msg list"
  reads :: nat

definition print :: "msg \<Rightarrow> world \<Rightarrow> world" where
  "print m w = w\<lparr>out := out w @ [m]\<rparr>"

text \<open>\<open>datetime.now()\<close>: the next reading of the clock.\<close>

definition now :: "env \<Rightarrow> world \<Rightarrow> datetime \<times> world" where
  "now e w = (clock e (reads w), w\<lparr>reads := reads w + 1\<rparr>)"

text \<open>
  \<open>Path.mkdir(parents=True, exist_ok=True)\<close>: every missing ancestor is created, outermost
  first; an ancestor that is a file, or that may not be created, raises, and what was
  created before stays.
\<close>

fun mkdirs :: "env \<Rightarrow> filesystem \<Rightarrow> path list \<Rightarrow> error option \<times> filesystem" where
  "mkdirs e fs [] = (None, fs)"
| "mkdirs e fs (d # ds) =
     (case lookup fs d of
        Some Dir \<Rightarrow> mkdirs e fs ds
      | Some (File c) \<Rightarrow> (Some OSError, fs)
      | None \<Rightarrow> if d \<in> unwritable e then (Some OSError, fs)
                else mkdirs e (fs_write fs d Dir) ds)"

definition mkdir :: "env \<Rightarrow> filesystem \<Rightarrow> path \<Rightarrow> error option \<times> filesystem" where
  "mkdir e fs d = mkdirs e fs (map (\<lambda>k. take k d) [1..<Suc (length d)])"

text \<open>
  \<open>shutil.copy2(src, dst)\<close>: a destination that is a directory stands for the file of the
  source's name in it; the source must be a readable file, the destination's directory
  must exist, and the destination must be neither the source itself nor a directory.
\<close>

definition copy2 :: "env \<Rightarrow> filesystem \<Rightarrow> path \<Rightarrow> path \<Rightarrow> error + filesystem" where
  "copy2 e fs src dst =
     (let final = (if lookup fs dst = Some Dir then joinpath dst (name src) else dst)
      in case lookup fs src of
           Some (File c) \<Rightarrow>
             if src \<in> unreadable e \<or> final \<in> unwritable e \<or> final = src
                \<or> lookup fs final = Some Dir \<or> lookup fs (butlast final) \<noteq> Some Dir
             then Inl OSError
             else Inr (fs_write fs final (File c))
         | _ \<Rightarrow> Inl OSError)"

text \<open>
  \<open>list(source_dir.rglob("*.docx"))\<close>: the entries below the directory, reached through
  directories only, whose name ends in \<open>.docx\<close>, in the order of the scan.
\<close>

definition endswith :: "ustring \<Rightarrow> ustring \<Rightarrow> bool" where
  "endswith s k \<longleftrightarrow> startswith (rev s) (rev k)"

definition rglob_docx :: "filesystem \<Rightarrow> path \<Rightarrow> path list" where
  "rglob_docx fs d =
     filter (\<lambda>p. length d < length p \<and> take (length d) p = d
                 \<and> list_all (\<lambda>k. lookup fs (take k p) = Some Dir) [length d..<length p]
                 \<and> endswith (name p) (u ''.docx''))
            (map fst fs)"

section \<open>The script\<close>

text \<open>\<open>Document(docx_path)\<close> followed by the texts of \<open>doc.paragraphs\<close>.\<close>

definition Document :: "env \<Rightarrow> filesystem \<Rightarrow> path \<Rightarrow> error + ustring list" where
  "Document e fs p =
     (if p \<in> unreadable e then Inl OSError
      else case lookup fs p of
             Some (File (Some texts)) \<Rightarrow> Inr texts
           | _ \<Rightarrow> Inl PackageError)"

definition extract_first_paragraph :: "env \<Rightarrow> world \<Rightarrow> path \<Rightarrow> ustring \<times> world" where
  "extract_first_paragraph e w docx_path =
     (case Document e (disk w) docx_path of
        Inr texts \<Rightarrow>
          (let paragraphs = map strip (filter (\<lambda>t. strip t \<noteq> []) texts)
           in (case paragraphs of [] \<Rightarrow> [] | p # ps \<Rightarrow> p, w))
      | Inl err \<Rightarrow> ([], print (ReadFailed docx_path err) w))"

definition investment_keywords :: "ustring list" where
  "investment_keywords =
     [[20080, 20837], [21334, 20986], [25345, 26377], [25237, 36164], [24314, 35758]]"

definition is_investment_advice_by_filename :: "env \<Rightarrow> ustring \<Rightarrow> bool" where
  "is_investment_advice_by_filename e filename =
     (let filename_lower = lower e filename
      in list_ex (\<lambda>keyword. contains filename_lower keyword) investment_keywords)"

definition marker :: ustring where
  "marker = [25237, 36164, 24314, 35758]"

definition target_base_dir :: path where
  "target_base_dir = [u ''Users'', u ''liuqun'', u ''TradingAgents-CN'', u ''results'']"

text \<open>Lines 97 to 109 of the loop body: the value of \<open>should_copy\<close>.\<close>

definition should_copy :: "env \<Rightarrow> world \<Rightarrow> path \<Rightarrow> bool \<times> world" where
  "should_copy e w docx_file =
     (if DOCX_AVAILABLE e then
        (let (first_paragraph, w1) = extract_first_paragraph e w docx_file
         in (if startswith first_paragraph marker then False else True, w1))
      else (if is_investment_advice_by_filename e (name docx_file) then False else True, w))"

text \<open>
  Lines 113 to 124: the target, the timestamp on a collision, the copy. When
  \<open>copy2\<close> raises, the exception leaves with the world as it is then.
\<close>

definition copy_file :: "env \<Rightarrow> path \<Rightarrow> world \<Rightarrow> path \<Rightarrow> (error \<times> world) + world" where
  "copy_file e target_dir w docx_file =
     (let target_file = joinpath target_dir (name docx_file);
          (target_file, w1) =
            (if path_exists (disk w) target_file then
               (let (t, w1) = now e w;
                    timestamp = strftime_HMS t;
                    name_part = stem target_file;
                    ext_part = suffix target_file
                in (joinpath target_dir (name_part @ [95] @ timestamp @ ext_part), w1))
             else (target_file, w))
      in case copy2 e (disk w1) docx_file target_file of
           Inl err \<Rightarrow> Inl (err, w1)
         | Inr fs' \<Rightarrow> Inr (print (Copied (name docx_file)) (w1\<lparr>disk := fs'\<rparr>)))"

text \<open>One pass of the loop body, \<open>try\<close> and \<open>except Exception\<close> included.\<close>

definition process_file :: "env \<Rightarrow> path \<Rightarrow> world \<times> nat \<Rightarrow> path \<Rightarrow> world \<times> nat" where
  "process_file e target_dir st docx_file =
     (let (w, copied_count) = st;
          (sc, w1) = should_copy e w docx_file
      in if sc then
           (case copy_file e target_dir w1 docx_file of
              Inr w2 \<Rightarrow> (w2, copied_count + 1)
            | Inl (err, w2) \<Rightarrow> (print (ProcessingError (name docx_file) err) w2, copied_count))
         else (print (Skipped (name docx_file)) w1, copied_count))"

fun process_files :: "env \<Rightarrow> path \<Rightarrow> path list \<Rightarrow> world \<times> nat \<Rightarrow> world \<times> nat" where
  "process_files e target_dir [] st = st"
| "process_files e target_dir (docx_file # rest) st =
     process_files e target_dir rest (process_file e target_dir st docx_file)"

text \<open>Lines 90 to 132: the loop over the candidates and the final report.\<close>

definition process_all :: "env \<Rightarrow> path \<Rightarrow> path list \<Rightarrow> world \<Rightarrow> world" where
  "process_all e target_dir docx_files w =
     (let w1 = (if \<not> DOCX_AVAILABLE e then print FilenameMode w else w);
          (w2, copied_count) = process_files e target_dir docx_files (w1, 0)
      in print (Done copied_count target_dir) w2)"

text \<open>
  The function returns the exception that leaves it, if any, and the world it leaves. A
  \<open>Path\<close> is always true, so \<open>if single_file\<close> asks whether the argument was given.
\<close>

definition copy_non_investment_docx_files ::
    "env \<Rightarrow> world \<Rightarrow> path option \<Rightarrow> error option \<times> world" where
  "copy_non_investment_docx_files e w single_file =
     (let (t, w0) = now e w;
          current_date = strftime_Ymd t;
          target_dir = joinpath target_base_dir current_date
      in case mkdir e (disk w0) target_dir of
           (Some err, fs') \<Rightarrow> (Some err, w0\<lparr>disk := fs'\<rparr>)
         | (None, fs') \<Rightarrow>
             (let w1 = print (TargetDirectory target_dir) (w0\<lparr>disk := fs'\<rparr>)
              in case single_file of
                   Some f \<Rightarrow>
                     (None, process_all e target_dir [f] (print (SingleFile (name f)) w1))
                 | None \<Rightarrow>
                     (let source_dir = joinpath (project_root e) (u ''results'')
                      in if \<not> path_exists (disk w1) source_dir
                         then (None, print (SourceMissing source_dir) w1)
                         else (let docx_files = rglob_docx (disk w1) source_dir
                               in (None, process_all e target_dir docx_files
                                           (print (Found (length docx_files)) w1))))))"

text \<open>
  \<open>main\<close> with \<open>sys.argv[1:]\<close> as paths; it returns the exit code of the process:
  0 when the body returns, 1 from the handler of \<open>Exception\<close>. A \<open>KeyboardInterrupt\<close>
  arrives asynchronously; the runs described here are the ones the user does not
  interrupt. The two lines printed when the import of \<open>python-docx\<close> fails belong to
  the loading of the module, before \<open>main\<close>, and are not part of its output.
\<close>

definition main :: "env \<Rightarrow> world \<Rightarrow> path list \<Rightarrow> nat \<times> world" where
  "main e w argv =
     (let w0 = print Separator (print Title w);
          w1 = (if \<not> DOCX_AVAILABLE e
                then print BlankLine (print HintCommand (print HintInstall w0)) else w0);
          r = (case argv of
                 file_path # others \<Rightarrow>
                   if path_exists (disk w1) file_path \<and> lower e (suffix file_path) = u ''.docx''
                   then copy_non_investment_docx_files e w1 (Some file_path)
                   else (None, print (InvalidPath file_path) w1)
               | [] \<Rightarrow> copy_non_investment_docx_files e w1 None)
      in case r of
           (None, w2) \<Rightarrow> (0, w2)
         | (Some err, w2) \<Rightarrow> (1, print (Unexpected err) w2))"

section \<open>Observations and example runs\<close>

text \<open>The entries of a filesystem that are files, in order.\<close>

definition files_of :: "filesystem \<Rightarrow> filesystem" where
  "files_of fs = filter (\<lambda>(p, n). n \<noteq> Dir) fs"

text \<open>
  The three messages that end the processing of a candidate, the file name each one is
  about, and the message of a completed copy.
\<close>

definition is_outcome :: "msg \<Rightarrow> bool" where
  "is_outcome m = (case m of Copied n \<Rightarrow> True | Skipped n \<Rightarrow> True | ProcessingError n err \<Rightarrow> True | _ \<Rightarrow> False)"

definition subject :: "msg \<Rightarrow> ustring" where
  "subject m = (case m of Copied n \<Rightarrow> n | Skipped n \<Rightarrow> n | ProcessingError n err \<Rightarrow> n | _ \<Rightarrow> [])"

definition is_copied :: "msg \<Rightarrow> bool" where
  "is_copied m = (case m of Copied n \<Rightarrow> True | _ \<Rightarrow> False)"




text \<open>
  The local variables \<open>target_dir\<close> and \<open>source_dir\<close> of
  \<open>copy_non_investment_docx_files\<close>, and the candidates of a run.
\<close>

definition target_dir :: "env \<Rightarrow> world \<Rightarrow> path" where
  "target_dir e w = joinpath target_base_dir (strftime_Ymd (clock e (reads w)))"

definition source_dir :: "env \<Rightarrow> path" where
  "source_dir e = joinpath (project_root e) (u ''results'')"

definition candidates :: "env \<Rightarrow> filesystem \<Rightarrow> path option \<Rightarrow> path list" where
  "candidates e d sf = (case sf of Some f \<Rightarrow> [f] | None \<Rightarrow> rglob_docx d (source_dir e))"

text \<open>
  A source tree in which every document is classified as investment advice: for every
  entry below the source directory whose name ends in \<open>.docx\<close>, \<open>should_copy\<close> is
  false.
\<close>

definition all_investment_advice :: "env \<Rightarrow> filesystem \<Rightarrow> bool" where
  "all_investment_advice e d =
     list_all (\<lambda>(p, n). take (length (source_dir e)) p = source_dir e
                          \<and> endswith (name p) (u ''.docx'')
                        \<longrightarrow> \<not> fst (should_copy e \<lparr>disk = d, out = [], reads = 0\<rparr> p)) d"

text \<open>
  Inputs of the example runs. \<open>lower_ascii\<close> agrees with \<open>str.lower\<close> on the names used
  here: ASCII letters, digits, punctuation and Chinese characters.
\<close>

definition lower_ascii :: "ustring \<Rightarrow> ustring" where
  "lower_ascii s = map (\<lambda>c. if 65 \<le> c \<and> c \<le> 90 then c + 32 else c) s"

definition ex_clock :: "nat \<Rightarrow> datetime" where
  "ex_clock k = \<lparr>year = 2025, month = 1, day = 2, hour = 12, minute = 0, second = 0\<rparr>"

definition ex_env :: env where
  "ex_env = \<lparr>DOCX_AVAILABLE = True, lower = lower_ascii, project_root = [u ''proj''],
     clock = ex_clock, unreadable = {}, unwritable = {}\<rparr>"

definition fn_env :: env where
  "fn_env = ex_env\<lparr>DOCX_AVAILABLE := False\<rparr>"

definition notes_world :: world where
  "notes_world = \<lparr>disk = [([u ''notes.txt''], File (Some [u ''market'']))], out = [], reads = 0\<rparr>"

definition advice_name :: ustring where
  "advice_name = u ''Q3_'' @ [25237, 36164] @ u ''.docx''"

definition fileA :: path where "fileA = [u ''proj'', u ''results'', u ''A.docx'']"

definition fileB :: path where "fileB = [u ''proj'', u ''results'', u ''B.docx'']"

definition fileC :: path where "fileC = [u ''proj'', u ''results'', u ''C.docx'']"

definition ex_disk :: filesystem where
  "ex_disk = [([u ''proj''], Dir), ([u ''proj'', u ''results''], Dir),
     (fileA, File (Some [u ''  '', marker @ u '': buy XYZ''])),
     (fileB, File (Some [u ''market view'', marker @ u '' comes later''])),
     (fileC, File None)]"

definition ex_world :: world where
  "ex_world = \<lparr>disk = ex_disk, out = [], reads = 0\<rparr>"

definition ex_td :: path where
  "ex_td = target_base_dir @ [u ''2025.01.02'']"

definition ready_world :: world where
  "ready_world = \<lparr>disk = snd (mkdir ex_env ex_disk ex_td), out = [], reads = 1\<rparr>"

definition faulty_env :: env where
  "faulty_env = ex_env\<lparr>unwritable := {ex_td @ [u ''B.docx'']}\<rparr>"



definition empty_world :: world where
  "empty_world = \<lparr>disk = [], out = [], reads = 0\<rparr>"

definition report_a :: path where
  "report_a = [u ''proj'', u ''results'', u ''a'', u ''report.docx'']"

definition report_b :: path where
  "report_b = [u ''proj'', u ''results'', u ''b'', u ''report.docx'']"

definition collision_world :: world where
  "collision_world =
     \<lparr>disk = [([u ''proj''], Dir), ([u ''proj'', u ''results''], Dir),
              ([u ''proj'', u ''results'', u ''a''], Dir),
              (report_a, File (Some [u ''first report''])),
              ([u ''proj'', u ''results'', u ''b''], Dir),
              (report_b, File (Some [u ''second report'']))]
             @ snd (mkdir ex_env [] ex_td)
             @ [(ex_td @ [u ''report.docx''], File (Some [u ''earlier copy'']))],
      out = [], reads = 0\<rparr>"

definition advice_world :: world where
  "advice_world =
     \<lparr>disk = [([u ''proj''], Dir), ([u ''proj'', u ''results''], Dir),
              (fileA, File (Some [u ''  '', marker @ u '': buy XYZ''])),
              ([u ''proj'', u ''results'', u ''D.docx''], File (Some [marker @ u '': hold'']))],
      out = [], reads = 0\<rparr>"

definition locked_env :: env where
  "locked_env = ex_env\<lparr>unwritable := {[u ''Users'']}\<rparr>"

section \<open>Strings\<close>

lemma startswith_append: "startswith s k \<longleftrightarrow> (\<exists>t. s = k @ t)"
  by (induction s k rule: startswith.induct) auto

lemma contains_decomp: "contains s k \<longleftrightarrow> (\<exists>a b. s = a @ k @ b)"
proof (induction s)
  case Nil
  then show ?case by simp
next
  case (Cons x xs)
  show ?case
  proof
    assume "contains (x # xs) k"
    then consider "startswith (x # xs) k" | "contains xs k" by auto
    then show "\<exists>a b. x # xs = a @ k @ b"
    proof cases
      case 1
      then obtain t where "x # xs = k @ t" using startswith_append by blast
      then have "x # xs = [] @ k @ t" by simp
      then show ?thesis by blast
    next
      case 2
      then obtain a b where "xs = a @ k @ b" using Cons.IH by blast
      then have "x # xs = (x # a) @ k @ b" by simp
      then show ?thesis by blast
    qed
  next
    assume "\<exists>a b. x # xs = a @ k @ b"
    then obtain a b where ab: "x # xs = a @ k @ b" by blast
    show "contains (x # xs) k"
    proof (cases a)
      case Nil
      with ab have "startswith (x # xs) k" using startswith_append by auto
      then show ?thesis by simp
    next
      case (Cons y ys)
      with ab have "xs = ys @ k @ b" by simp
      then have "contains xs k" using Cons.IH by blast
      then show ?thesis by simp
    qed
  qed
qed






section \<open>Filesystem operations\<close>

lemma lookup_fs_write:
  "p \<noteq> [] \<Longrightarrow> lookup (fs_write fs p n) q = (if q = p then Some n else lookup fs q)"
  by (induction fs) (auto simp: lookup_def)

lemma fs_write_new: "map_of fs p = None \<Longrightarrow> fs_write fs p n = fs @ [(p, n)]"
  by (induction fs) (auto split: if_splits)

lemma files_of_write_dir: "lookup fs p = None \<Longrightarrow> files_of (fs_write fs p Dir) = files_of fs"
  by (auto simp: lookup_def fs_write_new files_of_def split: if_splits)

lemma set_fs_write: "set (fs_write fs p n) \<subseteq> insert (p, n) (set fs)"
  by (induction fs p n rule: fs_write.induct) auto

lemma mkdirs_files: "files_of (snd (mkdirs e fs ds)) = files_of fs"
  by (induction ds arbitrary: fs) (auto simp: files_of_write_dir split: option.splits node.splits)

lemma lookup_None_nonroot: "lookup fs p = None \<Longrightarrow> p \<noteq> []"
  by (auto simp: lookup_def)

lemma mkdirs_lookup_other: "p \<notin> set ds \<Longrightarrow> lookup (snd (mkdirs e fs ds)) p = lookup fs p"
  by (induction ds arbitrary: fs)
     (auto simp: lookup_fs_write lookup_None_nonroot split: option.splits node.splits)

lemma mkdirs_lookup_old: "lookup fs p \<noteq> None \<Longrightarrow> lookup (snd (mkdirs e fs ds)) p = lookup fs p"
  by (induction ds arbitrary: fs)
     (auto simp: lookup_fs_write lookup_None_nonroot split: option.splits node.splits)

lemma mkdirs_entries:
  "(p, n) \<in> set (snd (mkdirs e fs ds)) \<Longrightarrow> (p, n) \<in> set fs \<or> (n = Dir \<and> p \<in> set ds)"
proof (induction ds arbitrary: fs)
  case Nil
  then show ?case by simp
next
  case (Cons d ds)
  show ?case
  proof (cases "lookup fs d")
    case None
    show ?thesis
    proof (cases "d \<in> unwritable e")
      case True
      with None Cons.prems show ?thesis by simp
    next
      case False
      with None Cons.prems have "(p, n) \<in> set (snd (mkdirs e (fs_write fs d Dir) ds))" by simp
      then have "(p, n) \<in> set (fs_write fs d Dir) \<or> (n = Dir \<and> p \<in> set ds)"
        by (rule Cons.IH)
      then show ?thesis using set_fs_write[of fs d Dir] by auto
    qed
  next
    case (Some m)
    with Cons show ?thesis by (cases m) auto
  qed
qed

lemma mkdirs_success_dirs:
  "fst (mkdirs e fs ds) = None \<Longrightarrow> d \<in> set ds \<Longrightarrow> lookup (snd (mkdirs e fs ds)) d = Some Dir"
proof (induction ds arbitrary: fs)
  case Nil
  then show ?case by simp
next
  case (Cons a ds)
  show ?case
  proof (cases "lookup fs a")
    case None
    with Cons.prems have nw: "a \<notin> unwritable e" by (auto split: if_splits)
    with None Cons.prems have ok: "fst (mkdirs e (fs_write fs a Dir) ds) = None" by simp
    have eq: "snd (mkdirs e fs (a # ds)) = snd (mkdirs e (fs_write fs a Dir) ds)"
      using None nw by simp
    show ?thesis
    proof (cases "d \<in> set ds")
      case True
      then show ?thesis using Cons.IH[OF ok] eq by simp
    next
      case False
      with Cons.prems have "d = a" by simp
      moreover have "lookup (fs_write fs a Dir) a = Some Dir"
        using None by (simp add: lookup_fs_write lookup_None_nonroot)
      ultimately show ?thesis using eq mkdirs_lookup_old[of "fs_write fs a Dir" a e ds] by simp
    qed
  next
    case (Some m)
    show ?thesis
    proof (cases m)
      case Dir
      with Some Cons.prems have ok: "fst (mkdirs e fs ds) = None" by simp
      have eq: "snd (mkdirs e fs (a # ds)) = snd (mkdirs e fs ds)" using Some Dir by simp
      show ?thesis
      proof (cases "d \<in> set ds")
        case True
        then show ?thesis using Cons.IH[OF ok] eq by simp
      next
        case False
        with Cons.prems have "d = a" by simp
        then show ?thesis using eq Some Dir mkdirs_lookup_old[of fs a e ds] by simp
      qed
    next
      case (File c)
      with Some Cons.prems show ?thesis by simp
    qed
  qed
qed

lemma mkdir_success_dir:
  "fst (mkdir e fs d) = None \<Longrightarrow> d \<noteq> [] \<Longrightarrow> lookup (snd (mkdir e fs d)) d = Some Dir"
proof -
  assume ok: "fst (mkdir e fs d) = None" and ne: "d \<noteq> []"
  from ne have "length d \<in> set [1..<Suc (length d)]" by (cases d) auto
  then have "take (length d) d \<in> set (map (\<lambda>k. take k d) [1..<Suc (length d)])"
    unfolding set_map by (rule imageI)
  then have "d \<in> set (map (\<lambda>k. take k d) [1..<Suc (length d)])" by simp
  with ok show ?thesis unfolding mkdir_def by (rule mkdirs_success_dirs)
qed

section \<open>The loop and its output\<close>

lemma should_copy_world:
  "snd (should_copy e w f) = w \<or> (\<exists>err. snd (should_copy e w f) = print (ReadFailed f err) w)"
  by (auto simp: should_copy_def extract_first_paragraph_def split: sum.splits prod.splits)

lemma copy_file_Inr:
  "copy_file e td w f = Inr w2 \<Longrightarrow> out w2 = out w @ [Copied (name f)]"
  by (auto simp: copy_file_def now_def print_def Let_def split: if_splits sum.splits prod.splits)

lemma copy_file_Inl:
  "copy_file e td w f = Inl (err, w2) \<Longrightarrow> out w2 = out w \<and> disk w2 = disk w"
  by (auto simp: copy_file_def now_def Let_def split: if_splits sum.splits prod.splits)

lemma process_file_out:
  "\<exists>ms. out (fst (process_file e td (w, n) f)) = out w @ ms
        \<and> map subject (filter is_outcome ms) = [name f]
        \<and> snd (process_file e td (w, n) f) = n + length (filter is_copied ms)"
proof -
  obtain sc w1 where sc: "should_copy e w f = (sc, w1)" by (cases "should_copy e w f")
  from should_copy_world[of e w f] sc
  obtain pre where pre: "out w1 = out w @ pre" "filter is_outcome pre = []" "filter is_copied pre = []"
    by (auto simp: print_def is_outcome_def is_copied_def)
  show ?thesis
  proof (cases sc)
    case False
    with sc pre show ?thesis
      by (auto simp: process_file_def print_def is_outcome_def is_copied_def subject_def)
  next
    case True
    show ?thesis
    proof (cases "copy_file e td w1 f")
      case (Inl a)
      obtain err w2 where a: "a = (err, w2)" by (cases a)
      from Inl a copy_file_Inl have "out w2 = out w1" by blast
      with sc True Inl a pre show ?thesis
        by (auto simp: process_file_def print_def is_outcome_def is_copied_def subject_def)
    next
      case (Inr w2)
      then have "out w2 = out w1 @ [Copied (name f)]" by (rule copy_file_Inr)
      with sc True Inr pre show ?thesis
        by (auto simp: process_file_def print_def is_outcome_def is_copied_def subject_def)
    qed
  qed
qed

lemma process_files_out:
  "\<exists>ms. out (fst (process_files e td ps (w, n))) = out w @ ms
        \<and> map subject (filter is_outcome ms) = map name ps
        \<and> snd (process_files e td ps (w, n)) = n + length (filter is_copied ms)"
proof (induction ps arbitrary: w n)
  case Nil
  show ?case by simp
next
  case (Cons f ps)
  obtain w1 n1 where st: "process_file e td (w, n) f = (w1, n1)" by (cases "process_file e td (w, n) f")
  from process_file_out[of e td w n f] st
  obtain ms1 where m1: "out w1 = out w @ ms1" "map subject (filter is_outcome ms1) = [name f]"
      "n1 = n + length (filter is_copied ms1)" by auto
  from Cons.IH[of w1 n1]
  obtain ms2 where m2: "out (fst (process_files e td ps (w1, n1))) = out w1 @ ms2"
      "map subject (filter is_outcome ms2) = map name ps"
      "snd (process_files e td ps (w1, n1)) = n1 + length (filter is_copied ms2)" by blast
  have "out (fst (process_files e td (f # ps) (w, n))) = out w @ (ms1 @ ms2)"
    using st m1 m2 by simp
  moreover have "map subject (filter is_outcome (ms1 @ ms2)) = map name (f # ps)"
    using m1 m2 by simp
  moreover have "snd (process_files e td (f # ps) (w, n)) = n + length (filter is_copied (ms1 @ ms2))"
    using st m1 m2 by simp
  ultimately show ?case by blast
qed




lemma process_file_out_shape:
  "\<exists>m. out (fst (process_file e td (w, n) f)) = out (snd (should_copy e w f)) @ [m]
       \<and> is_outcome m \<and> subject m = name f"
proof -
  obtain sc w1 where sc: "should_copy e w f = (sc, w1)" by (cases "should_copy e w f")
  show ?thesis
  proof (cases sc)
    case False
    with sc show ?thesis
      by (auto simp: process_file_def print_def is_outcome_def subject_def)
  next
    case True
    show ?thesis
    proof (cases "copy_file e td w1 f")
      case (Inl a)
      obtain err w2 where a: "a = (err, w2)" by (cases a)
      from Inl a copy_file_Inl have "out w2 = out w1" by blast
      with sc True Inl a show ?thesis
        by (auto simp: process_file_def print_def is_outcome_def subject_def)
    next
      case (Inr w2)
      then have "out w2 = out w1 @ [Copied (name f)]" by (rule copy_file_Inr)
      with sc True Inr show ?thesis
        by (auto simp: process_file_def print_def is_outcome_def subject_def)
    qed
  qed
qed

lemma should_copy_read_failure:
  assumes "DOCX_AVAILABLE e" and "Document e (disk w) f = Inl err"
  shows "should_copy e w f = (True, print (ReadFailed f err) w)"
  using assms by (simp add: should_copy_def extract_first_paragraph_def marker_def)

lemma process_all_eq:
  "process_all e td ps w =
     print (Done (snd (process_files e td ps (if DOCX_AVAILABLE e then w else print FilenameMode w, 0))) td)
       (fst (process_files e td ps (if DOCX_AVAILABLE e then w else print FilenameMode w, 0)))"
  by (cases "DOCX_AVAILABLE e") (simp_all add: process_all_def split: prod.splits)

lemma process_all_out:
  "\<exists>ms. out (process_all e td ps w)
          = out w @ (if DOCX_AVAILABLE e then [] else [FilenameMode]) @ ms
            @ [Done (length (filter is_copied ms)) td]
        \<and> map subject (filter is_outcome ms) = map name ps"
proof -
  define w1 where "w1 = (if DOCX_AVAILABLE e then w else print FilenameMode w)"
  obtain w2 c where st: "process_files e td ps (w1, 0) = (w2, c)"
    by (cases "process_files e td ps (w1, 0)")
  from process_files_out[of e td ps w1 0] st
  obtain ms where ms: "out w2 = out w1 @ ms" "map subject (filter is_outcome ms) = map name ps"
      "c = length (filter is_copied ms)" by auto
  have "process_all e td ps w = print (Done c td) w2"
    using st unfolding process_all_eq w1_def[symmetric] by simp
  then have "out (process_all e td ps w) = out w1 @ ms @ [Done (length (filter is_copied ms)) td]"
    using ms by (simp add: print_def)
  moreover have "out w1 = out w @ (if DOCX_AVAILABLE e then [] else [FilenameMode])"
    by (simp add: w1_def print_def)
  ultimately have "out (process_all e td ps w)
          = out w @ (if DOCX_AVAILABLE e then [] else [FilenameMode]) @ ms
            @ [Done (length (filter is_copied ms)) td]"
    by simp
  with ms show ?thesis by blast
qed









lemma process_file_skip:
  "should_copy e w f = (False, w1) \<Longrightarrow> process_file e td (w, n) f = (print (Skipped (name f)) w1, n)"
  by (simp add: process_file_def)





lemma not_ancestor:
  assumes "take (length s) td \<noteq> s"
  shows "s \<notin> set (map (\<lambda>k. take k td) [1..<Suc (length td)])"
proof
  assume "s \<in> set (map (\<lambda>k. take k td) [1..<Suc (length td)])"
  then have "s \<in> (\<lambda>k. take k td) ` {1..<Suc (length td)}" by (simp only: set_map set_upt)
  then obtain k where "k \<in> {1..<Suc (length td)}" and sk: "s = take k td" by (rule imageE)
  then have k: "k \<le> length td" "s = take k td" by simp_all
  then have "length s = k" by simp
  with k assms show False by simp
qed

lemma mkdir_lookup_other:
  "take (length s) td \<noteq> s \<Longrightarrow> lookup (snd (mkdir e fs td)) s = lookup fs s"
  unfolding mkdir_def by (rule mkdirs_lookup_other) (rule not_ancestor)

lemma mkdir_files: "files_of (snd (mkdir e fs td)) = files_of fs"
  unfolding mkdir_def by (rule mkdirs_files)

section \<open>The run\<close>

lemma run_raises:
  "fst (copy_non_investment_docx_files e w sf) = fst (mkdir e (disk w) (target_dir e w))"
  by (cases "mkdir e (disk w) (target_dir e w)")
     (auto simp: copy_non_investment_docx_files_def now_def target_dir_def Let_def
           split: option.splits prod.splits)

lemma run_mkdir_failed:
  "mkdir e (disk w) (target_dir e w) = (Some err, d) \<Longrightarrow>
   copy_non_investment_docx_files e w sf = (Some err, w\<lparr>reads := reads w + 1, disk := d\<rparr>)"
  by (simp add: copy_non_investment_docx_files_def now_def target_dir_def Let_def)

lemma run_single:
  "mkdir e (disk w) (target_dir e w) = (None, d) \<Longrightarrow>
   copy_non_investment_docx_files e w (Some f) =
     (None, process_all e (target_dir e w) [f]
        (print (SingleFile (name f)) (print (TargetDirectory (target_dir e w))
           (w\<lparr>reads := reads w + 1, disk := d\<rparr>))))"
  by (simp add: copy_non_investment_docx_files_def now_def target_dir_def Let_def)

lemma run_source_missing:
  "mkdir e (disk w) (target_dir e w) = (None, d) \<Longrightarrow> \<not> path_exists d (source_dir e) \<Longrightarrow>
   copy_non_investment_docx_files e w None =
     (None, print (SourceMissing (source_dir e)) (print (TargetDirectory (target_dir e w))
           (w\<lparr>reads := reads w + 1, disk := d\<rparr>)))"
  by (simp add: copy_non_investment_docx_files_def now_def target_dir_def source_dir_def Let_def print_def)

lemma run_scan:
  "mkdir e (disk w) (target_dir e w) = (None, d) \<Longrightarrow> path_exists d (source_dir e) \<Longrightarrow>
   copy_non_investment_docx_files e w None =
     (None, process_all e (target_dir e w) (rglob_docx d (source_dir e))
        (print (Found (length (rglob_docx d (source_dir e)))) (print (TargetDirectory (target_dir e w))
           (w\<lparr>reads := reads w + 1, disk := d\<rparr>))))"
  by (simp add: copy_non_investment_docx_files_def now_def target_dir_def source_dir_def Let_def print_def)

lemma run_completes:
  assumes mk: "mkdir e (disk w) (target_dir e w) = (None, d)"
      and src: "sf = None \<longrightarrow> path_exists d (source_dir e)"
  shows "\<exists>ms. out (snd (copy_non_investment_docx_files e w sf))
            = out w @ [TargetDirectory (target_dir e w),
                       (case sf of Some f \<Rightarrow> SingleFile (name f)
                                 | None \<Rightarrow> Found (length (candidates e d sf)))]
              @ (if DOCX_AVAILABLE e then [] else [FilenameMode]) @ ms
              @ [Done (length (filter is_copied ms)) (target_dir e w)]
          \<and> map subject (filter is_outcome ms) = map name (candidates e d sf)"
proof (cases sf)
  case None
  with src have ex: "path_exists d (source_dir e)" by simp
  let ?w0 = "print (Found (length (rglob_docx d (source_dir e)))) (print (TargetDirectory (target_dir e w))
           (w\<lparr>reads := reads w + 1, disk := d\<rparr>))"
  from process_all_out[of e "target_dir e w" "rglob_docx d (source_dir e)" ?w0]
  obtain ms where ms: "out (process_all e (target_dir e w) (rglob_docx d (source_dir e)) ?w0)
          = out ?w0 @ (if DOCX_AVAILABLE e then [] else [FilenameMode]) @ ms
            @ [Done (length (filter is_copied ms)) (target_dir e w)]"
        "map subject (filter is_outcome ms) = map name (rglob_docx d (source_dir e))" by blast
  show ?thesis
    using None ms run_scan[OF mk ex] by (auto simp: candidates_def print_def)
next
  case (Some f)
  let ?w0 = "print (SingleFile (name f)) (print (TargetDirectory (target_dir e w))
           (w\<lparr>reads := reads w + 1, disk := d\<rparr>))"
  from process_all_out[of e "target_dir e w" "[f]" ?w0]
  obtain ms where ms: "out (process_all e (target_dir e w) [f] ?w0)
          = out ?w0 @ (if DOCX_AVAILABLE e then [] else [FilenameMode]) @ ms
            @ [Done (length (filter is_copied ms)) (target_dir e w)]"
        "map subject (filter is_outcome ms) = map name [f]" by blast
  show ?thesis
    using Some ms run_single[OF mk, of f] by (auto simp: candidates_def print_def)
qed

section \<open>Runs that skip every candidate\<close>

lemma Document_lookup:
  "lookup fs p = lookup fs' p \<Longrightarrow> Document e fs p = Document e fs' p"
  by (simp add: Document_def)

lemma extract_first_paragraph_fst:
  "fst (extract_first_paragraph e w p) =
     (case Document e (disk w) p of
        Inr texts \<Rightarrow> (case map strip (filter (\<lambda>t. strip t \<noteq> []) texts) of [] \<Rightarrow> [] | q # qs \<Rightarrow> q)
      | Inl err \<Rightarrow> [])"
  by (simp add: extract_first_paragraph_def split: sum.splits)

lemma should_copy_fst:
  "fst (should_copy e w p) =
     (if DOCX_AVAILABLE e then \<not> startswith (fst (extract_first_paragraph e w p)) marker
      else \<not> is_investment_advice_by_filename e (name p))"
  by (simp add: should_copy_def split: prod.splits)

lemma should_copy_disk_only:
  "lookup (disk w) p = lookup (disk w') p \<Longrightarrow> fst (should_copy e w p) = fst (should_copy e w' p)"
  unfolding should_copy_fst extract_first_paragraph_fst
  using Document_lookup[of "disk w" p "disk w'" e] by simp

lemma should_copy_False_world:
  "\<not> fst (should_copy e w p) \<Longrightarrow> snd (should_copy e w p) = w"
  by (auto simp: should_copy_def extract_first_paragraph_def marker_def
           split: prod.splits sum.splits if_splits)

lemma process_files_all_skipped:
  "(\<forall>p \<in> set ps. \<not> fst (should_copy e w p)) \<Longrightarrow>
   process_files e td ps (w, n) = (w\<lparr>out := out w @ map (\<lambda>p. Skipped (name p)) ps\<rparr>, n)"
proof (induction ps arbitrary: w)
  case Nil
  show ?case by simp
next
  case (Cons f ps)
  from Cons.prems have nf: "\<not> fst (should_copy e w f)" by simp
  then have "should_copy e w f = (False, w)"
    using should_copy_False_world[of e w f] by (cases "should_copy e w f") simp
  then have step: "process_file e td (w, n) f = (print (Skipped (name f)) w, n)"
    by (rule process_file_skip)
  have "\<forall>p \<in> set ps. \<not> fst (should_copy e (print (Skipped (name f)) w) p)"
  proof
    fix p assume "p \<in> set ps"
    with Cons.prems have "\<not> fst (should_copy e w p)" by simp
    moreover have "fst (should_copy e (print (Skipped (name f)) w) p) = fst (should_copy e w p)"
      by (rule should_copy_disk_only) (simp add: print_def)
    ultimately show "\<not> fst (should_copy e (print (Skipped (name f)) w) p)" by simp
  qed
  from Cons.IH[OF this] step show ?case by (simp add: print_def)
qed

lemma rglob_docx_entries:
  "p \<in> set (rglob_docx d s) \<Longrightarrow>
   p \<in> fst ` set d \<and> take (length s) p = s \<and> endswith (name p) (u ''.docx'')"
  by (auto simp: rglob_docx_def)

lemma all_investment_advice_candidates:
  assumes "all_investment_advice e (disk w)" and "p \<in> set (rglob_docx (disk w) (source_dir e))"
  shows "\<not> fst (should_copy e w p)"
proof -
  from rglob_docx_entries[OF assms(2)] obtain n where
      pn: "(p, n) \<in> set (disk w)" and pre: "take (length (source_dir e)) p = source_dir e"
      and ext: "endswith (name p) (u ''.docx'')" by auto
  from assms(1) pn pre ext
  have "\<not> fst (should_copy e \<lparr>disk = disk w, out = [], reads = 0\<rparr> p)"
    by (auto simp: all_investment_advice_def list_all_iff)
  moreover have "fst (should_copy e \<lparr>disk = disk w, out = [], reads = 0\<rparr> p) = fst (should_copy e w p)"
    by (rule should_copy_disk_only) simp
  ultimately show ?thesis by simp
qed

lemma date_not_docx: "\<not> endswith (strftime_Ymd t) (u ''.docx'')"
proof -
  have "day t mod 10 < 10" by simp
  then have "48 + day t mod 10 \<noteq> 120" by linarith
  then show ?thesis
    by (simp add: endswith_def strftime_Ymd_def two_digits_def four_digits_def u_def)
qed

lemma target_dir_components:
  "c \<in> set (target_dir e w) \<Longrightarrow> \<not> endswith c (u ''.docx'')"
proof -
  assume "c \<in> set (target_dir e w)"
  then have "c \<in> set target_base_dir \<or> c = strftime_Ymd (clock e (reads w))"
    by (auto simp: target_dir_def joinpath_def split: if_splits)
  then show ?thesis
  proof
    assume "c \<in> set target_base_dir"
    then show ?thesis by (auto simp: target_base_dir_def endswith_def u_def)
  next
    assume "c = strftime_Ymd (clock e (reads w))"
    then show ?thesis by (simp add: date_not_docx)
  qed
qed

lemma created_not_docx:
  assumes "d \<in> set (map (\<lambda>k. take k td) [1..<Suc (length td)])"
  shows "d \<noteq> [] \<and> last d \<in> set td"
proof -
  from assms have "d \<in> (\<lambda>k. take k td) ` {1..<Suc (length td)}" by (simp only: set_map set_upt)
  then obtain k where "k \<in> {1..<Suc (length td)}" and dk: "d = take k td" by (rule imageE)
  then have k: "1 \<le> k" "k \<le> length td" by simp_all
  then have ne: "d \<noteq> []" using dk by auto
  then have "last d \<in> set d" by simp
  moreover have "set d \<subseteq> set td" unfolding dk by (rule set_take_subset)
  ultimately show ?thesis using ne by blast
qed

lemma map_of_entry: "(p, n) \<in> set d \<Longrightarrow> map_of d p \<noteq> None"
  by (induction d) auto

lemma all_investment_advice_mkdir:
  assumes "all_investment_advice e d"
  shows "all_investment_advice e (snd (mkdir e d (target_dir e w)))"
proof -
  let ?d' = "snd (mkdir e d (target_dir e w))"
  have "\<not> fst (should_copy e \<lparr>disk = ?d', out = [], reads = 0\<rparr> p)"
    if pn: "(p, n) \<in> set ?d'" and pre: "take (length (source_dir e)) p = source_dir e"
      and ext: "endswith (name p) (u ''.docx'')" for p n
  proof -
    from pn have "(p, n) \<in> set d
        \<or> (n = Dir \<and> p \<in> set (map (\<lambda>k. take k (target_dir e w)) [1..<Suc (length (target_dir e w))]))"
      unfolding mkdir_def by (rule mkdirs_entries)
    then show ?thesis
    proof
      assume old: "(p, n) \<in> set d"
      with assms pre ext have a: "\<not> fst (should_copy e \<lparr>disk = d, out = [], reads = 0\<rparr> p)"
        by (auto simp: all_investment_advice_def list_all_iff)
      from old have "lookup d p \<noteq> None" using map_of_entry by (auto simp: lookup_def)
      then have "lookup ?d' p = lookup d p" unfolding mkdir_def by (rule mkdirs_lookup_old)
      then have "fst (should_copy e \<lparr>disk = ?d', out = [], reads = 0\<rparr> p)
               = fst (should_copy e \<lparr>disk = d, out = [], reads = 0\<rparr> p)"
        by (intro should_copy_disk_only) simp
      with a show ?thesis by simp
    next
      assume "n = Dir \<and> p \<in> set (map (\<lambda>k. take k (target_dir e w)) [1..<Suc (length (target_dir e w))])"
      then have "p \<noteq> [] \<and> last p \<in> set (target_dir e w)" using created_not_docx by blast
      then have "\<not> endswith (name p) (u ''.docx'')"
        using target_dir_components[of "last p" e w] by (simp add: name_def)
      with ext show ?thesis by simp
    qed
  qed
  then show ?thesis by (auto simp: all_investment_advice_def list_all_iff)
qed

lemma path_exists_mkdir:
  "path_exists d p \<Longrightarrow> path_exists (snd (mkdir e d td)) p"
  unfolding path_exists_def mkdir_def using mkdirs_lookup_old[of d p e] by simp

lemma main_no_args:
  "main e w [] =
     (case copy_non_investment_docx_files e
             (if \<not> DOCX_AVAILABLE e
              then print BlankLine (print HintCommand (print HintInstall (print Separator (print Title w))))
              else print Separator (print Title w)) None of
        (None, w2) \<Rightarrow> (0, w2)
      | (Some err, w2) \<Rightarrow> (1, print (Unexpected err) w2))"
  by (simp add: main_def Let_def)

lemma target_dir_nonempty: "target_dir e w \<noteq> []"
  by (simp add: target_dir_def joinpath_def target_base_dir_def)

lemma skip_run:
  assumes adv: "all_investment_advice e (disk w)" and src: "path_exists (disk w) (source_dir e)"
      and run: "main e w [] = (0, w1)"
  shows "disk w1 = snd (mkdir e (disk w) (target_dir e w)) \<and> reads w1 = reads w + 1
       \<and> last (out w1) = Done 0 (target_dir e w)"
proof -
  define w0 where "w0 = (if \<not> DOCX_AVAILABLE e
              then print BlankLine (print HintCommand (print HintInstall (print Separator (print Title w))))
              else print Separator (print Title w))"
  have d0: "disk w0 = disk w" and r0: "reads w0 = reads w" by (simp_all add: w0_def print_def)
  have td: "target_dir e w0 = target_dir e w" by (simp add: target_dir_def r0)
  define d where "d = snd (mkdir e (disk w) (target_dir e w))"
  from run have cr: "copy_non_investment_docx_files e w0 None = (None, w1)"
    unfolding main_no_args w0_def[symmetric]
    by (auto split: prod.splits option.splits)
  then have "fst (mkdir e (disk w0) (target_dir e w0)) = None"
    using run_raises[of e w0 None] by simp
  then have mk: "mkdir e (disk w0) (target_dir e w0) = (None, d)"
    by (cases "mkdir e (disk w) (target_dir e w)") (simp add: d0 td d_def)
  have ex: "path_exists d (source_dir e)" unfolding d_def using src by (rule path_exists_mkdir)
  let ?cands = "rglob_docx d (source_dir e)"
  let ?wa = "print (Found (length ?cands)) (print (TargetDirectory (target_dir e w0))
           (w0\<lparr>reads := reads w0 + 1, disk := d\<rparr>))"
  from run_scan[OF mk ex] cr have w1: "w1 = process_all e (target_dir e w0) ?cands ?wa" by simp
  let ?ws = "if DOCX_AVAILABLE e then ?wa else print FilenameMode ?wa"
  have ds: "disk ?ws = d" by (simp add: print_def)
  have adv': "all_investment_advice e d" unfolding d_def using adv by (rule all_investment_advice_mkdir)
  have "\<forall>p \<in> set ?cands. \<not> fst (should_copy e ?ws p)"
  proof
    fix p assume "p \<in> set ?cands"
    then have "p \<in> set (rglob_docx (disk ?ws) (source_dir e))" by (simp only: ds)
    moreover have "all_investment_advice e (disk ?ws)" using adv' by (simp only: ds)
    ultimately show "\<not> fst (should_copy e ?ws p)" by (rule all_investment_advice_candidates[rotated])
  qed
  from process_files_all_skipped[OF this, of "target_dir e w0" 0]
  have pf: "process_files e (target_dir e w0) ?cands (?ws, 0)
          = (?ws\<lparr>out := out ?ws @ map (\<lambda>p. Skipped (name p)) ?cands\<rparr>, 0)" .
  have "w1 = print (Done 0 (target_dir e w0)) (?ws\<lparr>out := out ?ws @ map (\<lambda>p. Skipped (name p)) ?cands\<rparr>)"
    unfolding w1 process_all_eq pf by simp
  then show ?thesis by (simp add: print_def td r0 d_def)
qed

section \<open>Evaluation of the example runs\<close>

lemmas path_defs = u_def name_def suffix_def stem_def joinpath_def endswith_def

lemmas clock_defs = now_def strftime_Ymd_def strftime_HMS_def two_digits_def four_digits_def

lemmas fs_defs = lookup_def path_exists_def mkdir_def copy2_def rglob_docx_def Document_def

lemmas script_defs = extract_first_paragraph_def investment_keywords_def
  is_investment_advice_by_filename_def marker_def target_base_dir_def should_copy_def
  copy_file_def process_file_def process_all_def copy_non_investment_docx_files_def main_def
  print_def strip_def isspace_def target_dir_def source_dir_def Let_def

lemmas ex_defs = lower_ascii_def ex_clock_def ex_env_def fn_env_def fileA_def fileB_def fileC_def
  ex_disk_def ex_world_def ex_td_def ready_world_def faulty_env_def


lemmas ex3_defs = empty_world_def report_a_def report_b_def collision_world_def

section \<open>Properties of the script\<close>

text \<open>
  C2. Filename strategy. When \<open>python-docx\<close> is unavailable, a file is classified as
  investment advice, that is \<open>should_copy\<close> is false, exactly when its lowercased name
  contains one of the five keywords; nothing of the world enters the verdict, and the
  world is returned as it was.
\<close>

theorem filename_strategy:
  assumes "\<not> DOCX_AVAILABLE e"
  shows "should_copy e w docx_file =
           (\<not> (\<exists>keyword \<in> {[20080, 20837], [21334, 20986], [25345, 26377], [25237, 36164], [24314, 35758]}.
                 \<exists>a b. lower e (name docx_file) = a @ keyword @ b), w)"
  using assms
  by (simp add: should_copy_def is_investment_advice_by_filename_def investment_keywords_def
      contains_decomp Let_def del: contains.simps)

theorem filename_strategy_witness:
  "\<not> DOCX_AVAILABLE fn_env
   \<and> should_copy fn_env notes_world [u ''in'', advice_name] = (False, notes_world)
   \<and> (\<exists>keyword \<in> {[20080, 20837], [21334, 20986], [25345, 26377], [25237, 36164], [24314, 35758]}.
         \<exists>a b. lower fn_env (name [u ''in'', advice_name]) = a @ keyword @ b)"
proof -
  have h: "\<not> DOCX_AVAILABLE fn_env" by (simp add: fn_env_def ex_env_def)
  have sc: "should_copy fn_env notes_world [u ''in'', advice_name] = (False, notes_world)"
    by (simp add: should_copy_def is_investment_advice_by_filename_def investment_keywords_def
        fn_env_def ex_env_def name_def advice_name_def lower_ascii_def u_def)
  show ?thesis
    using h sc filename_strategy[OF h, of notes_world "[u ''in'', advice_name]"] by simp
qed

text \<open>
  C6. Invalid single-file argument. Called with one path that does not exist or whose
  lowercased suffix is not \<open>.docx\<close>, \<open>main\<close> prints the banner and the invalid-path
  message, leaves the filesystem and the clock untouched, and ends with exit code 0.
\<close>

theorem invalid_single_file:
  assumes "\<not> path_exists (disk w) file_path \<or> lower e (suffix file_path) \<noteq> u ''.docx''"
  shows "main e w [file_path] =
           (0, w\<lparr>out := out w @ [Title, Separator]
                     @ (if DOCX_AVAILABLE e then [] else [HintInstall, HintCommand, BlankLine])
                     @ [InvalidPath file_path]\<rparr>)"
  using assms by (auto simp add: main_def print_def)

theorem invalid_single_file_witness:
  "path_exists (disk notes_world) [u ''notes.txt'']
   \<and> lower ex_env (suffix [u ''notes.txt'']) \<noteq> u ''.docx''
   \<and> main ex_env notes_world [[u ''notes.txt'']]
       = (0, notes_world\<lparr>out := [Title, Separator, InvalidPath [u ''notes.txt'']]\<rparr>)"
proof -
  have "suffix [u ''notes.txt''] = u ''.txt''"
    by (simp add: suffix_def name_def u_def)
  then have h: "\<not> path_exists (disk notes_world) [u ''notes.txt'']
      \<or> lower ex_env (suffix [u ''notes.txt'']) \<noteq> u ''.docx''"
    by (simp add: ex_env_def lower_ascii_def u_def)
  show ?thesis
    using h invalid_single_file[OF h]
    by (simp add: ex_env_def notes_world_def path_exists_def lookup_def)
qed

text \<open>
  C3. Read-failure default. Under the content strategy, when \<open>Document\<close> raises on a
  candidate, the error is printed for that file, \<open>should_copy\<close> stays true, and the loop
  goes on: the candidate and every candidate after it get their outcome message.
\<close>

theorem read_failure_default:
  assumes "DOCX_AVAILABLE e" and "Document e (disk w) f = Inl err"
  shows "should_copy e w f = (True, print (ReadFailed f err) w)
       \<and> (\<exists>ms. out (fst (process_files e td (f # rest) (w, n))) = out w @ ReadFailed f err # ms
              \<and> map subject (filter is_outcome ms) = map name (f # rest))"
proof -
  have sc: "should_copy e w f = (True, print (ReadFailed f err) w)"
    using assms by (rule should_copy_read_failure)
  obtain w1 n1 where st: "process_file e td (w, n) f = (w1, n1)"
    by (cases "process_file e td (w, n) f")
  from process_file_out_shape[of e td w n f] sc st
  obtain m where m: "out w1 = out w @ [ReadFailed f err, m]" "is_outcome m" "subject m = name f"
    by (auto simp: print_def)
  from process_files_out[of e td rest w1 n1]
  obtain ms where ms: "out (fst (process_files e td rest (w1, n1))) = out w1 @ ms"
      "map subject (filter is_outcome ms) = map name rest" by blast
  have "out (fst (process_files e td (f # rest) (w, n))) = out w @ ReadFailed f err # (m # ms)"
    using st m ms by simp
  moreover have "map subject (filter is_outcome (m # ms)) = map name (f # rest)"
    using m ms by simp
  ultimately show ?thesis using sc by blast
qed

theorem read_failure_default_witness:
  "DOCX_AVAILABLE ex_env
   \<and> Document ex_env (disk ready_world) fileC = Inl PackageError
   \<and> should_copy ex_env ready_world fileC = (True, print (ReadFailed fileC PackageError) ready_world)
   \<and> out (fst (process_files ex_env ex_td [fileC, fileA] (ready_world, 0)))
       = [ReadFailed fileC PackageError, Copied (u ''C.docx''), Skipped (u ''A.docx'')]"
proof -
  have h1: "DOCX_AVAILABLE ex_env" by (simp add: ex_env_def)
  have h2: "Document ex_env (disk ready_world) fileC = Inl PackageError"
    by (simp add: path_defs clock_defs fs_defs script_defs ex_defs)
  have ev: "out (fst (process_files ex_env ex_td [fileC, fileA] (ready_world, 0)))
       = [ReadFailed fileC PackageError, Copied (u ''C.docx''), Skipped (u ''A.docx'')]"
    by (simp add: path_defs clock_defs fs_defs script_defs ex_defs)
  from read_failure_default[OF h1 h2, of ex_td "[fileA]" 0] h1 h2 ev show ?thesis by simp
qed

text \<open>
  C7. Per-file error isolation. Whatever the reads and copies of the candidates do, the
  loop prints exactly one outcome message for each candidate, in order; a copy that raises
  is printed as a processing error of that file and leaves the count as it is. The
  function raises only when creating the destination directory raises, and once the
  directory is there and the source directory exists (or a single file is given) the run
  reaches its final report after the outcome messages of all candidates.
\<close>

theorem per_file_error_isolation:
  "(\<exists>ms. out (fst (process_files e td ps (w, n))) = out w @ ms
         \<and> map subject (filter is_outcome ms) = map name ps)
   \<and> (\<forall>err w2. fst (should_copy e w f) \<and> copy_file e td (snd (should_copy e w f)) f = Inl (err, w2)
         \<longrightarrow> process_file e td (w, n) f = (print (ProcessingError (name f) err) w2, n))
   \<and> fst (copy_non_investment_docx_files e w sf) = fst (mkdir e (disk w) (target_dir e w))
   \<and> (fst (mkdir e (disk w) (target_dir e w)) = None
        \<and> (sf = None \<longrightarrow> path_exists (snd (mkdir e (disk w) (target_dir e w))) (source_dir e))
      \<longrightarrow> (\<exists>ms. out (snd (copy_non_investment_docx_files e w sf))
            = out w @ [TargetDirectory (target_dir e w),
                       (case sf of Some f \<Rightarrow> SingleFile (name f)
                                 | None \<Rightarrow> Found (length (candidates e
                                     (snd (mkdir e (disk w) (target_dir e w))) sf)))]
              @ (if DOCX_AVAILABLE e then [] else [FilenameMode]) @ ms
              @ [Done (length (filter is_copied ms)) (target_dir e w)]
          \<and> map subject (filter is_outcome ms)
              = map name (candidates e (snd (mkdir e (disk w) (target_dir e w))) sf)))"
proof -
  have a: "\<exists>ms. out (fst (process_files e td ps (w, n))) = out w @ ms
         \<and> map subject (filter is_outcome ms) = map name ps"
    using process_files_out[of e td ps w n] by blast
  have b: "\<forall>err w2. fst (should_copy e w f) \<and> copy_file e td (snd (should_copy e w f)) f = Inl (err, w2)
         \<longrightarrow> process_file e td (w, n) f = (print (ProcessingError (name f) err) w2, n)"
    by (auto simp: process_file_def split: prod.splits)
  have c: "fst (copy_non_investment_docx_files e w sf) = fst (mkdir e (disk w) (target_dir e w))"
    by (rule run_raises)
  have d: "\<exists>ms. out (snd (copy_non_investment_docx_files e w sf))
            = out w @ [TargetDirectory (target_dir e w),
                       (case sf of Some f \<Rightarrow> SingleFile (name f)
                                 | None \<Rightarrow> Found (length (candidates e
                                     (snd (mkdir e (disk w) (target_dir e w))) sf)))]
              @ (if DOCX_AVAILABLE e then [] else [FilenameMode]) @ ms
              @ [Done (length (filter is_copied ms)) (target_dir e w)]
          \<and> map subject (filter is_outcome ms)
              = map name (candidates e (snd (mkdir e (disk w) (target_dir e w))) sf)"
    if ok: "fst (mkdir e (disk w) (target_dir e w)) = None"
      and src: "sf = None \<longrightarrow> path_exists (snd (mkdir e (disk w) (target_dir e w))) (source_dir e)"
  proof -
    from ok have mk: "mkdir e (disk w) (target_dir e w) = (None, snd (mkdir e (disk w) (target_dir e w)))"
      by (cases "mkdir e (disk w) (target_dir e w)") simp
    from run_completes[OF mk src] show ?thesis .
  qed
  from a b c d show ?thesis by blast
qed

theorem per_file_error_isolation_witness:
  "fst (mkdir faulty_env (disk ex_world) (target_dir faulty_env ex_world)) = None
   \<and> path_exists (snd (mkdir faulty_env (disk ex_world) (target_dir faulty_env ex_world)))
         (source_dir faulty_env)
   \<and> fst (copy_non_investment_docx_files faulty_env ex_world None) = None
   \<and> out (snd (copy_non_investment_docx_files faulty_env ex_world None))
       = [TargetDirectory ex_td, Found 3, Skipped (u ''A.docx''),
          ProcessingError (u ''B.docx'') OSError,
          ReadFailed fileC PackageError, Copied (u ''C.docx''), Done 1 ex_td]
   \<and> fst (should_copy faulty_env ready_world fileB)
   \<and> copy_file faulty_env ex_td (snd (should_copy faulty_env ready_world fileB)) fileB
       = Inl (OSError, ready_world)
   \<and> process_file faulty_env ex_td (ready_world, 0) fileB
       = (print (ProcessingError (name fileB) OSError) ready_world, 0)"
proof -
  have td: "target_dir faulty_env ex_world = ex_td"
    by (simp add: path_defs clock_defs script_defs ex_defs)
  have mk: "mkdir faulty_env (disk ex_world) ex_td = (None, disk ready_world)"
    by (simp add: path_defs clock_defs fs_defs script_defs ex_defs)
  have src: "path_exists (disk ready_world) (source_dir faulty_env)"
    by (simp add: path_defs clock_defs fs_defs script_defs ex_defs)
  have run: "out (snd (copy_non_investment_docx_files faulty_env ex_world None))
       = [TargetDirectory ex_td, Found 3, Skipped (u ''A.docx''),
          ProcessingError (u ''B.docx'') OSError,
          ReadFailed fileC PackageError, Copied (u ''C.docx''), Done 1 ex_td]"
    by (simp add: path_defs clock_defs fs_defs script_defs ex_defs)
  have sc: "should_copy faulty_env ready_world fileB = (True, ready_world)"
    by (simp add: path_defs clock_defs fs_defs script_defs ex_defs)
  have cf: "copy_file faulty_env ex_td ready_world fileB = Inl (OSError, ready_world)"
    by (simp add: path_defs clock_defs fs_defs script_defs ex_defs)
  from per_file_error_isolation[where e = faulty_env and td = ex_td and w = ready_world
        and n = 0 and f = fileB and ps = "[]" and sf = None]
    per_file_error_isolation[where e = faulty_env and td = ex_td and w = ex_world
        and n = 0 and f = fileB and ps = "[]" and sf = None]
    td mk src run sc cf
  show ?thesis by simp
qed









text \<open>
  C4, as amended. Missing source directory. Run without argument on a filesystem where the
  source directory does not exist and is neither the destination directory nor one of its
  ancestors, \<open>main\<close> first creates the destination directory. When that succeeds, the
  directory is there, the message of the missing source directory is printed and the exit
  code is 0; when it raises, the error is printed as unexpected and the exit code is 1. In
  both cases no file is created or changed.
\<close>

theorem missing_source_directory:
  assumes "\<not> path_exists (disk w) (source_dir e)"
      and "take (length (source_dir e)) (target_dir e w) \<noteq> source_dir e"
  shows "disk (snd (main e w [])) = snd (mkdir e (disk w) (target_dir e w))
       \<and> files_of (disk (snd (main e w []))) = files_of (disk w)
       \<and> (case fst (mkdir e (disk w) (target_dir e w)) of
             None \<Rightarrow>
               fst (main e w []) = 0
               \<and> out (snd (main e w []))
                   = out w @ [Title, Separator]
                     @ (if DOCX_AVAILABLE e then [] else [HintInstall, HintCommand, BlankLine])
                     @ [TargetDirectory (target_dir e w), SourceMissing (source_dir e)]
               \<and> lookup (disk (snd (main e w []))) (target_dir e w) = Some Dir
           | Some err \<Rightarrow>
               fst (main e w []) = 1
               \<and> out (snd (main e w []))
                   = out w @ [Title, Separator]
                     @ (if DOCX_AVAILABLE e then [] else [HintInstall, HintCommand, BlankLine])
                     @ [Unexpected err])"
proof -
  define w1 where "w1 = (if \<not> DOCX_AVAILABLE e
                then print BlankLine (print HintCommand (print HintInstall (print Separator (print Title w))))
                else print Separator (print Title w))"
  have d1: "disk w1 = disk w" and r1: "reads w1 = reads w"
    and o1: "out w1 = out w @ [Title, Separator]
             @ (if DOCX_AVAILABLE e then [] else [HintInstall, HintCommand, BlankLine])"
    by (simp_all add: w1_def print_def)
  have td: "target_dir e w1 = target_dir e w" by (simp add: target_dir_def r1)
  define d where "d = snd (mkdir e (disk w) (target_dir e w))"
  have fo: "files_of d = files_of (disk w)" unfolding d_def by (rule mkdir_files)
  show ?thesis
  proof (cases "fst (mkdir e (disk w) (target_dir e w))")
    case None
    then have mk: "mkdir e (disk w1) (target_dir e w1) = (None, d)"
      by (cases "mkdir e (disk w) (target_dir e w)") (simp add: d1 td d_def)
    have "lookup d (source_dir e) = lookup (disk w) (source_dir e)"
      unfolding d_def using assms(2) by (rule mkdir_lookup_other)
    with assms(1) have miss: "\<not> path_exists d (source_dir e)" by (simp add: path_exists_def)
    have run: "copy_non_investment_docx_files e w1 None =
       (None, print (SourceMissing (source_dir e)) (print (TargetDirectory (target_dir e w1))
             (w1\<lparr>reads := reads w1 + 1, disk := d\<rparr>)))"
      using mk miss by (rule run_source_missing)
    have m: "main e w [] = (0, print (SourceMissing (source_dir e)) (print (TargetDirectory (target_dir e w1))
             (w1\<lparr>reads := reads w1 + 1, disk := d\<rparr>)))"
      using run unfolding main_no_args w1_def[symmetric] by simp
    have dd: "lookup d (target_dir e w) = Some Dir"
      unfolding d_def using None target_dir_nonempty by (rule mkdir_success_dir)
    show ?thesis
      unfolding m using o1 td None fo dd by (simp add: print_def d_def[symmetric])
  next
    case (Some err)
    then have mk: "mkdir e (disk w1) (target_dir e w1) = (Some err, d)"
      by (cases "mkdir e (disk w) (target_dir e w)") (simp add: d1 td d_def)
    have run: "copy_non_investment_docx_files e w1 None
        = (Some err, w1\<lparr>reads := reads w1 + 1, disk := d\<rparr>)"
      using mk by (rule run_mkdir_failed)
    have m: "main e w [] = (1, print (Unexpected err) (w1\<lparr>reads := reads w1 + 1, disk := d\<rparr>))"
      using run unfolding main_no_args w1_def[symmetric] by simp
    show ?thesis
      unfolding m using o1 Some fo by (simp add: print_def d_def[symmetric])
  qed
qed

theorem missing_source_directory_witness:
  "\<not> path_exists (disk empty_world) (source_dir ex_env)
   \<and> take (length (source_dir ex_env)) (target_dir ex_env empty_world) \<noteq> source_dir ex_env
   \<and> fst (mkdir ex_env (disk empty_world) (target_dir ex_env empty_world)) = None
   \<and> fst (main ex_env empty_world []) = 0
   \<and> out (snd (main ex_env empty_world []))
       = [Title, Separator, TargetDirectory ex_td, SourceMissing [u ''proj'', u ''results'']]
   \<and> lookup (disk (snd (main ex_env empty_world []))) ex_td = Some Dir
   \<and> files_of (disk (snd (main ex_env empty_world []))) = []
   \<and> \<not> path_exists (disk empty_world) (source_dir locked_env)
   \<and> take (length (source_dir locked_env)) (target_dir locked_env empty_world) \<noteq> source_dir locked_env
   \<and> fst (mkdir locked_env (disk empty_world) (target_dir locked_env empty_world)) = Some OSError
   \<and> fst (main locked_env empty_world []) = 1
   \<and> out (snd (main locked_env empty_world [])) = [Title, Separator, Unexpected OSError]
   \<and> disk (snd (main locked_env empty_world [])) = []"
proof -
  have h1: "\<not> path_exists (disk empty_world) (source_dir ex_env)"
    by (simp add: path_defs fs_defs script_defs ex_defs ex3_defs)
  have h2: "take (length (source_dir ex_env)) (target_dir ex_env empty_world) \<noteq> source_dir ex_env"
    by (simp add: path_defs clock_defs script_defs ex_defs ex3_defs)
  have h3: "fst (mkdir ex_env (disk empty_world) (target_dir ex_env empty_world)) = None"
    by (simp add: path_defs clock_defs fs_defs script_defs ex_defs ex3_defs)
  have td: "target_dir ex_env empty_world = ex_td"
    by (simp add: path_defs clock_defs script_defs ex_defs ex3_defs)
  have sd: "source_dir ex_env = [u ''proj'', u ''results'']"
    by (simp add: path_defs script_defs ex_defs)
  have av: "DOCX_AVAILABLE ex_env" by (simp add: ex_defs)
  have fo: "files_of (disk empty_world) = []" by (simp add: ex3_defs files_of_def)
  have o: "out empty_world = []" by (simp add: ex3_defs)
  have k1: "\<not> path_exists (disk empty_world) (source_dir locked_env)"
    by (simp add: locked_env_def path_defs fs_defs script_defs ex_defs ex3_defs)
  have k2: "take (length (source_dir locked_env)) (target_dir locked_env empty_world) \<noteq> source_dir locked_env"
    by (simp add: locked_env_def path_defs clock_defs script_defs ex_defs ex3_defs)
  have k3: "mkdir locked_env (disk empty_world) (target_dir locked_env empty_world) = (Some OSError, [])"
    by (simp add: locked_env_def path_defs clock_defs fs_defs script_defs ex_defs ex3_defs)
  have kav: "DOCX_AVAILABLE locked_env" by (simp add: locked_env_def ex_defs)
  from missing_source_directory[OF h1 h2] missing_source_directory[OF k1 k2]
    h1 h2 h3 k1 k2 k3 show ?thesis
    unfolding td sd o using av kav fo by (auto simp: mkdir_files)
qed

text \<open>
  C4, as stated, fails on an empty filesystem: the source directory is missing, the exit
  code is 0, and the destination directory, absent before the run, is there after it.
\<close>

theorem missing_source_directory_counterexample:
  "\<not> path_exists (disk empty_world) (source_dir ex_env)
   \<and> fst (main ex_env empty_world []) = 0
   \<and> lookup (disk empty_world) ex_td = None
   \<and> lookup (disk (snd (main ex_env empty_world []))) ex_td = Some Dir"
  by (simp add: path_defs clock_defs fs_defs script_defs ex_defs ex3_defs)

text \<open>
  C5 at a failing input. The destination directory already holds \<open>report.docx\<close>; the
  source tree holds two different files of that name, neither of them investment advice,
  and both are processed within the second 12:00:00. Both copies go to
  \<open>report_120000.docx\<close>: the first copy is there after the first candidate, the second
  copy replaces it, and the run that reports two copies leaves one new file.
\<close>

theorem collision_overwrites_same_second:
  "rglob_docx (disk collision_world) (source_dir ex_env) = [report_a, report_b]
   \<and> lookup (disk collision_world) (ex_td @ [u ''report_120000.docx'']) = None
   \<and> lookup (disk (fst (process_files ex_env ex_td [report_a] (collision_world, 0))))
        (ex_td @ [u ''report_120000.docx'']) = Some (File (Some [u ''first report'']))
   \<and> fst (main ex_env collision_world []) = 0
   \<and> out (snd (main ex_env collision_world []))
       = [Title, Separator, TargetDirectory ex_td, Found 2,
          Copied (u ''report.docx''), Copied (u ''report.docx''), Done 2 ex_td]
   \<and> files_of (disk (snd (main ex_env collision_world [])))
       = files_of (disk collision_world)
         @ [(ex_td @ [u ''report_120000.docx''], File (Some [u ''second report'']))]"
  by (simp add: path_defs clock_defs fs_defs script_defs ex_defs ex3_defs files_of_def)

text \<open>
  C8. Idempotence of skip. On a filesystem whose source directory exists and in which
  every document of the source tree is classified as investment advice, a run without
  argument that ends with exit code 0 reports 0 copies and creates or changes no file, and
  so does a second run started from the world the first one left.
\<close>

theorem idempotence_of_skip:
  assumes "all_investment_advice e (disk w)" and "path_exists (disk w) (source_dir e)"
      and "main e w [] = (0, w1)" and "main e w1 [] = (0, w2)"
  shows "last (out w1) = Done 0 (target_dir e w) \<and> files_of (disk w1) = files_of (disk w)
       \<and> last (out w2) = Done 0 (target_dir e w1) \<and> files_of (disk w2) = files_of (disk w)"
proof -
  from skip_run[OF assms(1,2,3)]
  have a: "disk w1 = snd (mkdir e (disk w) (target_dir e w))"
    and b: "last (out w1) = Done 0 (target_dir e w)" by simp_all
  have adv1: "all_investment_advice e (disk w1)"
    unfolding a using assms(1) by (rule all_investment_advice_mkdir)
  have src1: "path_exists (disk w1) (source_dir e)"
    unfolding a using assms(2) by (rule path_exists_mkdir)
  from skip_run[OF adv1 src1 assms(4)]
  have c: "disk w2 = snd (mkdir e (disk w1) (target_dir e w1))"
    and d: "last (out w2) = Done 0 (target_dir e w1)" by simp_all
  have "files_of (disk w1) = files_of (disk w)" unfolding a by (rule mkdir_files)
  moreover have "files_of (disk w2) = files_of (disk w1)" unfolding c by (rule mkdir_files)
  ultimately show ?thesis using b d by simp
qed

theorem idempotence_of_skip_witness:
  "all_investment_advice ex_env (disk advice_world)
   \<and> path_exists (disk advice_world) (source_dir ex_env)
   \<and> fst (main ex_env advice_world []) = 0
   \<and> fst (main ex_env (snd (main ex_env advice_world [])) []) = 0
   \<and> last (out (snd (main ex_env advice_world []))) = Done 0 ex_td
   \<and> last (out (snd (main ex_env (snd (main ex_env advice_world [])) []))) = Done 0 ex_td
   \<and> files_of (disk (snd (main ex_env advice_world []))) = files_of (disk advice_world)
   \<and> files_of (disk (snd (main ex_env (snd (main ex_env advice_world [])) [])))
       = files_of (disk advice_world)"
proof -
  define w1 where "w1 = snd (main ex_env advice_world [])"
  define w2 where "w2 = snd (main ex_env w1 [])"
  have h1: "all_investment_advice ex_env (disk advice_world)"
    by (simp add: all_investment_advice_def advice_world_def path_defs fs_defs script_defs ex_defs)
  have h2: "path_exists (disk advice_world) (source_dir ex_env)"
    by (simp add: advice_world_def path_defs fs_defs script_defs ex_defs)
  have e1: "fst (main ex_env advice_world []) = 0"
    by (simp add: advice_world_def path_defs clock_defs fs_defs script_defs ex_defs)
  have e2: "fst (main ex_env w1 []) = 0"
    unfolding w1_def
    by (simp add: advice_world_def path_defs clock_defs fs_defs script_defs ex_defs)
  have m1: "main ex_env advice_world [] = (0, w1)"
    using e1 unfolding w1_def by (cases "main ex_env advice_world []") simp
  have m2: "main ex_env w1 [] = (0, w2)"
    using e2 unfolding w2_def by (cases "main ex_env w1 []") simp
  have td: "target_dir ex_env w = ex_td" for w
    by (simp add: path_defs clock_defs script_defs ex_defs)
  from idempotence_of_skip[OF h1 h2 m1 m2] h1 h2 e1 e2
  show ?thesis unfolding td w2_def w1_def by simp
qed

end
